theory Spec2Isabelle
  imports Complex_Main
begin

section \<open>The neumorphic toggle button: data model\<close>

text \<open>
  The development embeds \<^verbatim>\<open>src/components/NeumorphicDropButton.tsx\<close>. The file holds
  two copies of the component: the first (lines 1 to 185) and the second (lines 185 to 368).
  They share the control flow and differ in the tone constants and in the call of
  \<^verbatim>\<open>e.preventDefault()\<close> on a touch-end, which only the first copy makes. Both are
  embedded, selected by a \<open>variant\<close>.
\<close>

datatype variant = VariantA | VariantB

text \<open>The argument of \<^verbatim>\<open>playClickSound\<close>: \<^verbatim>\<open>'down' | 'up'\<close>.\<close>

datatype click_type = Down | Up

text \<open>The \<^verbatim>\<open>state\<close> attribute of an audio context.\<close>

datatype ctx_state = Suspended | Running | Closed

datatype osc_type = Sine | Triangle

text \<open>The DOM events the button's JSX subscribes to.\<close>

datatype event_type = MouseDown | MouseUp | MouseLeave | TouchStart | TouchEnd

text \<open>
  Audio contexts and audio nodes are objects with an identity; they are numbered in the
  order of their construction. An audio parameter is the \<^verbatim>\<open>frequency\<close> of an
  oscillator or the \<^verbatim>\<open>gain\<close> of a gain node; the target of \<^verbatim>\<open>connect\<close> is a
  node or the \<^verbatim>\<open>destination\<close> of a context.
\<close>

datatype audio_param = Frequency nat | Gain nat

datatype sink = Node nat | Destination nat

text \<open>
  Everything the component does to the outside, in the order it does it: the calls of
  the state setter, of the event, of the callback, and of the Web Audio interface.
  \<open>PlayClickSound\<close> records the invocation of \<^verbatim>\<open>playClickSound\<close> itself. Times,
  frequencies and gains are rationals: the decimal constants of the source are taken
  exactly, and the audio clock is not rounded.
\<close>

datatype effect =
    SetIsPressed bool
  | PreventDefault
  | OnToggle
  | PlayClickSound click_type
  | NewAudioContext nat
  | Resume nat
  | CreateGain nat nat
  | CreateOscillator nat nat
  | SetOscType nat osc_type
  | SetValue audio_param rat
  | Connect nat sink
  | SetValueAtTime audio_param rat rat
  | ExponentialRampToValueAtTime audio_param rat rat
  | Start nat rat
  | Stop nat rat

text \<open>
  What the host answers during one event: whether \<^verbatim>\<open>window.AudioContext\<close> and
  \<^verbatim>\<open>window.webkitAudioContext\<close> are there, and the \<^verbatim>\<open>state\<close> and
  \<^verbatim>\<open>currentTime\<close> a context reports.
\<close>

record platform =
  has_AudioContext :: bool
  has_webkitAudioContext :: bool
  state_of :: "nat \<Rightarrow> ctx_state"
  currentTime :: "nat \<Rightarrow> rat"

text \<open>
  The state of one mounted component: \<^verbatim>\<open>isPressed\<close> (\<^verbatim>\<open>useState\<close>),
  \<^verbatim>\<open>audioContextRef.current\<close> (\<^verbatim>\<open>useRef\<close>, \<open>None\<close> for \<^verbatim>\<open>null\<close>), the number of
  audio contexts and of audio nodes constructed so far, and the effects so far. A handler
  runs in the closure of the latest render, so it reads the \<open>isPressed\<close> left by the
  previous event.
\<close>

record world =
  isPressed :: bool
  audioContextRef :: "nat option"
  constructed :: nat
  nodes :: nat
  trace :: "effect list"

datatype error = TypeError

definition initial :: world where
  "initial = \<lparr>isPressed = False, audioContextRef = None, constructed = 0, nodes = 0, trace = []\<rparr>"

definition log :: "effect \<Rightarrow> world \<Rightarrow> world" where
  "log x w = w\<lparr>trace := trace w @ [x]\<rparr>"

definition setIsPressed :: "bool \<Rightarrow> world \<Rightarrow> world" where
  "setIsPressed b w = log (SetIsPressed b) (w\<lparr>isPressed := b\<rparr>)"

section \<open>The audio context, created lazily\<close>

text \<open>
  \<^verbatim>\<open>getAudioContext\<close>: when the reference is empty and the host has a constructor, a
  context is constructed and stored; then a context found suspended is resumed; the
  reference is returned.
\<close>

definition getAudioContext :: "platform \<Rightarrow> world \<Rightarrow> nat option \<times> world" where
  "getAudioContext p w =
     (let w1 = (if audioContextRef w = None
                then (if has_AudioContext p \<or> has_webkitAudioContext p
                      then log (NewAudioContext (constructed w))
                             (w\<lparr>audioContextRef := Some (constructed w),
                                constructed := Suc (constructed w)\<rparr>)
                      else w)
                else w);
          w2 = (case audioContextRef w1 of
                  None \<Rightarrow> w1
                | Some h \<Rightarrow> if state_of p h = Suspended then log (Resume h) w1 else w1)
      in (audioContextRef w2, w2))"

section \<open>The click sound\<close>

text \<open>The graph: a master gain into the destination, and two oscillators, each through
  a gain node of its own into the master gain.\<close>

definition graph_ops :: "nat \<Rightarrow> nat \<Rightarrow> nat \<Rightarrow> nat \<Rightarrow> nat \<Rightarrow> nat \<Rightarrow> effect list" where
  "graph_ops h masterGain snapOsc snapGain bodyOsc bodyGain =
     [CreateGain h masterGain,
      SetValue (Gain masterGain) 1.0,
      Connect masterGain (Destination h),
      CreateOscillator h snapOsc,
      CreateGain h snapGain,
      SetOscType snapOsc Triangle,
      Connect snapOsc (Node snapGain),
      Connect snapGain (Node masterGain),
      CreateOscillator h bodyOsc,
      CreateGain h bodyGain,
      SetOscType bodyOsc Sine,
      Connect bodyOsc (Node bodyGain),
      Connect bodyGain (Node masterGain)]"

text \<open>The sweeps and envelopes of the two branches of \<^verbatim>\<open>if (type === 'down')\<close>, in
  the first and in the second copy of the file.\<close>

fun tone_ops :: "variant \<Rightarrow> click_type \<Rightarrow> rat \<Rightarrow> nat \<Rightarrow> nat \<Rightarrow> nat \<Rightarrow> nat \<Rightarrow> effect list" where
  "tone_ops VariantA Down t snapOsc snapGain bodyOsc bodyGain =
     [SetValueAtTime (Frequency snapOsc) 4500 t,
      ExponentialRampToValueAtTime (Frequency snapOsc) 1200 (t + 0.008),
      SetValueAtTime (Gain snapGain) 0.7 t,
      ExponentialRampToValueAtTime (Gain snapGain) 0.001 (t + 0.012),
      SetValueAtTime (Frequency bodyOsc) 400 t,
      ExponentialRampToValueAtTime (Frequency bodyOsc) 100 (t + 0.03),
      SetValueAtTime (Gain bodyGain) 0.3 t,
      ExponentialRampToValueAtTime (Gain bodyGain) 0.001 (t + 0.03)]"
| "tone_ops VariantA Up t snapOsc snapGain bodyOsc bodyGain =
     [SetValueAtTime (Frequency snapOsc) 2800 t,
      ExponentialRampToValueAtTime (Frequency snapOsc) 800 (t + 0.012),
      SetValueAtTime (Gain snapGain) 0.5 t,
      ExponentialRampToValueAtTime (Gain snapGain) 0.001 (t + 0.012),
      SetValueAtTime (Frequency bodyOsc) 300 t,
      ExponentialRampToValueAtTime (Frequency bodyOsc) 60 (t + 0.05),
      SetValueAtTime (Gain bodyGain) 0.4 t,
      ExponentialRampToValueAtTime (Gain bodyGain) 0.001 (t + 0.05)]"
| "tone_ops VariantB Down t snapOsc snapGain bodyOsc bodyGain =
     [SetValueAtTime (Frequency snapOsc) 4500 t,
      ExponentialRampToValueAtTime (Frequency snapOsc) 1200 (t + 0.01),
      SetValueAtTime (Gain snapGain) 0.6 t,
      ExponentialRampToValueAtTime (Gain snapGain) 0.001 (t + 0.015),
      SetValueAtTime (Frequency bodyOsc) 400 t,
      ExponentialRampToValueAtTime (Frequency bodyOsc) 100 (t + 0.04),
      SetValueAtTime (Gain bodyGain) 0.2 t,
      ExponentialRampToValueAtTime (Gain bodyGain) 0.001 (t + 0.04)]"
| "tone_ops VariantB Up t snapOsc snapGain bodyOsc bodyGain =
     [SetValueAtTime (Frequency snapOsc) 2800 t,
      ExponentialRampToValueAtTime (Frequency snapOsc) 800 (t + 0.015),
      SetValueAtTime (Gain snapGain) 0.4 t,
      ExponentialRampToValueAtTime (Gain snapGain) 0.001 (t + 0.015),
      SetValueAtTime (Frequency bodyOsc) 300 t,
      ExponentialRampToValueAtTime (Frequency bodyOsc) 60 (t + 0.06),
      SetValueAtTime (Gain bodyGain) 0.3 t,
      ExponentialRampToValueAtTime (Gain bodyGain) 0.001 (t + 0.06)]"

definition start_stop_ops :: "rat \<Rightarrow> nat \<Rightarrow> nat \<Rightarrow> effect list" where
  "start_stop_ops t snapOsc bodyOsc =
     [Start snapOsc t, Stop snapOsc (t + 0.03), Start bodyOsc t, Stop bodyOsc (t + 0.1)]"

text \<open>
  \<^verbatim>\<open>playClickSound\<close>. After the guard \<^verbatim>\<open>if (!ctx) return\<close> the source reads
  \<^verbatim>\<open>ctx.currentTime\<close> and calls methods of \<^verbatim>\<open>ctx\<close>; on \<^verbatim>\<open>null\<close> that would
  throw a \<^verbatim>\<open>TypeError\<close>, which is the \<open>Inl\<close> branch. The five nodes are created in
  the order master gain, snap oscillator, snap gain, body oscillator, body gain.
\<close>

definition playClickSound :: "variant \<Rightarrow> click_type \<Rightarrow> platform \<Rightarrow> world \<Rightarrow> error + world" where
  "playClickSound v ty p w =
     (case getAudioContext p (log (PlayClickSound ty) w) of
        (ctx, w1) \<Rightarrow>
          if ctx = None then Inr w1
          else (case ctx of
                  None \<Rightarrow> Inl TypeError
                | Some h \<Rightarrow>
                    (let t = currentTime p h;
                         masterGain = nodes w1;
                         snapOsc = nodes w1 + 1;
                         snapGain = nodes w1 + 2;
                         bodyOsc = nodes w1 + 3;
                         bodyGain = nodes w1 + 4
                     in Inr (w1\<lparr>nodes := nodes w1 + 5,
                                 trace := trace w1
                                   @ graph_ops h masterGain snapOsc snapGain bodyOsc bodyGain
                                   @ tone_ops v ty t snapOsc snapGain bodyOsc bodyGain
                                   @ start_stop_ops t snapOsc bodyOsc\<rparr>))))"

section \<open>The handlers\<close>

definition handlePressStart :: "variant \<Rightarrow> platform \<Rightarrow> world \<Rightarrow> error + world" where
  "handlePressStart v p w = playClickSound v Down p (setIsPressed True w)"

definition handlePressEnd :: "variant \<Rightarrow> event_type \<Rightarrow> platform \<Rightarrow> world \<Rightarrow> error + world" where
  "handlePressEnd v e p w =
     (let w0 = (if v = VariantA \<and> e = TouchEnd then log PreventDefault w else w)
      in if isPressed w
         then (case playClickSound v Up p (setIsPressed False w0) of
                 Inl x \<Rightarrow> Inl x
               | Inr w2 \<Rightarrow> Inr (log OnToggle w2))
         else Inr w0)"

definition handleMouseLeave :: "world \<Rightarrow> world" where
  "handleMouseLeave w = (if isPressed w then setIsPressed False w else w)"

text \<open>The wiring of the \<^verbatim>\<open>button\<close> element: \<^verbatim>\<open>onMouseDown\<close> and
  \<^verbatim>\<open>onTouchStart\<close> to \<^verbatim>\<open>handlePressStart\<close>, \<^verbatim>\<open>onMouseUp\<close> and \<^verbatim>\<open>onTouchEnd\<close>
  to \<^verbatim>\<open>handlePressEnd\<close>, \<^verbatim>\<open>onMouseLeave\<close> to \<^verbatim>\<open>handleMouseLeave\<close>.\<close>

fun dispatch :: "variant \<Rightarrow> event_type \<Rightarrow> platform \<Rightarrow> world \<Rightarrow> error + world" where
  "dispatch v MouseDown p w = handlePressStart v p w"
| "dispatch v MouseUp p w = handlePressEnd v MouseUp p w"
| "dispatch v MouseLeave p w = Inr (handleMouseLeave w)"
| "dispatch v TouchStart p w = handlePressStart v p w"
| "dispatch v TouchEnd p w = handlePressEnd v TouchEnd p w"

text \<open>A sequence of events, each with what the host answers at that moment; an error
  ends the run, as an uncaught exception would.\<close>

fun run :: "variant \<Rightarrow> (event_type \<times> platform) list \<Rightarrow> world \<Rightarrow> error + world" where
  "run v [] w = Inr w"
| "run v ((e, p) # es) w =
     (case dispatch v e p w of Inl x \<Rightarrow> Inl x | Inr w' \<Rightarrow> run v es w')"

section \<open>Observations on the effects\<close>

text \<open>The effects added between two states of the component.\<close>

definition emitted :: "world \<Rightarrow> world \<Rightarrow> effect list" where
  "emitted w w' = drop (length (trace w)) (trace w')"

text \<open>What \<^verbatim>\<open>playClickSound\<close> emits, or nothing when it throws.\<close>

definition tone_effects :: "variant \<Rightarrow> click_type \<Rightarrow> platform \<Rightarrow> world \<Rightarrow> effect list" where
  "tone_effects v ty p w = (case playClickSound v ty p w of Inl _ \<Rightarrow> [] | Inr w' \<Rightarrow> emitted w w')"

text \<open>The kinds of effect: the calls of the Web Audio interface, and the calls the
  controller makes (state setter, sound, callback).\<close>

fun is_audio_op :: "effect \<Rightarrow> bool" where
  "is_audio_op (SetIsPressed b) = False"
| "is_audio_op PreventDefault = False"
| "is_audio_op OnToggle = False"
| "is_audio_op (PlayClickSound ty) = False"
| "is_audio_op _ = True"

fun is_controller_call :: "effect \<Rightarrow> bool" where
  "is_controller_call (SetIsPressed b) = True"
| "is_controller_call OnToggle = True"
| "is_controller_call (PlayClickSound ty) = True"
| "is_controller_call _ = False"

definition controller_calls :: "effect list \<Rightarrow> effect list" where
  "controller_calls effs = filter is_controller_call effs"

definition audio_ops :: "effect list \<Rightarrow> effect list" where
  "audio_ops effs = filter is_audio_op effs"

definition control_trace :: "world \<Rightarrow> effect list" where
  "control_trace w = filter (\<lambda>x. \<not> is_audio_op x) (trace w)"

text \<open>Projections of single effects, and the lists they select from a trace.\<close>

fun played :: "effect \<Rightarrow> click_type option" where
  "played (PlayClickSound ty) = Some ty"
| "played _ = None"

fun context_created :: "effect \<Rightarrow> nat option" where
  "context_created (NewAudioContext h) = Some h"
| "context_created _ = None"

fun created_oscillator :: "effect \<Rightarrow> nat option" where
  "created_oscillator (CreateOscillator h n) = Some n"
| "created_oscillator _ = None"

fun created_gain :: "effect \<Rightarrow> nat option" where
  "created_gain (CreateGain h n) = Some n"
| "created_gain _ = None"

fun waveform_set :: "effect \<Rightarrow> (nat \<times> osc_type) option" where
  "waveform_set (SetOscType n ty) = Some (n, ty)"
| "waveform_set _ = None"

fun connection :: "effect \<Rightarrow> (nat \<times> sink) option" where
  "connection (Connect n s) = Some (n, s)"
| "connection _ = None"

fun value_set :: "effect \<Rightarrow> (audio_param \<times> rat) option" where
  "value_set (SetValue prm x) = Some (prm, x)"
| "value_set _ = None"

fun started :: "effect \<Rightarrow> (nat \<times> rat) option" where
  "started (Start n t) = Some (n, t)"
| "started _ = None"

fun stopped :: "effect \<Rightarrow> (nat \<times> rat) option" where
  "stopped (Stop n t) = Some (n, t)"
| "stopped _ = None"

fun value_set_at :: "effect \<Rightarrow> (audio_param \<times> rat \<times> rat) option" where
  "value_set_at (SetValueAtTime prm x t) = Some (prm, x, t)"
| "value_set_at _ = None"

fun ramp_to :: "effect \<Rightarrow> (audio_param \<times> rat \<times> rat) option" where
  "ramp_to (ExponentialRampToValueAtTime prm x t) = Some (prm, x, t)"
| "ramp_to _ = None"

definition tones :: "effect list \<Rightarrow> click_type list" where
  "tones effs = List.map_filter played effs"

definition contexts_created :: "effect list \<Rightarrow> nat list" where
  "contexts_created effs = List.map_filter context_created effs"

definition oscillators :: "effect list \<Rightarrow> nat list" where
  "oscillators effs = List.map_filter created_oscillator effs"

definition gain_nodes :: "effect list \<Rightarrow> nat list" where
  "gain_nodes effs = List.map_filter created_gain effs"

definition waveforms :: "effect list \<Rightarrow> (nat \<times> osc_type) list" where
  "waveforms effs = List.map_filter waveform_set effs"

definition connections :: "effect list \<Rightarrow> (nat \<times> sink) list" where
  "connections effs = List.map_filter connection effs"

definition fixed_values :: "effect list \<Rightarrow> (audio_param \<times> rat) list" where
  "fixed_values effs = List.map_filter value_set effs"

definition starts :: "effect list \<Rightarrow> (nat \<times> rat) list" where
  "starts effs = List.map_filter started effs"

definition stops :: "effect list \<Rightarrow> (nat \<times> rat) list" where
  "stops effs = List.map_filter stopped effs"

text \<open>The value a parameter is set to at the start of its sweep, and the length of the
  sweep: the time of the ramp's end minus the time of the set.\<close>

definition start_value :: "audio_param \<Rightarrow> effect list \<Rightarrow> rat option" where
  "start_value prm effs = map_option fst (map_of (List.map_filter value_set_at effs) prm)"

definition window :: "audio_param \<Rightarrow> effect list \<Rightarrow> rat option" where
  "window prm effs =
     (case (map_of (List.map_filter value_set_at effs) prm,
            map_of (List.map_filter ramp_to effs) prm) of
        (Some (x, t0), Some (y, t1)) \<Rightarrow> Some (t1 - t0)
      | _ \<Rightarrow> None)"

text \<open>Strictly less, between two values that are both there.\<close>

definition lt_opt :: "rat option \<Rightarrow> rat option \<Rightarrow> bool" where
  "lt_opt a b = (case (a, b) of (Some x, Some y) \<Rightarrow> x < y | _ \<Rightarrow> False)"

text \<open>The three kinds of event of the state machine.\<close>

fun is_press :: "event_type \<Rightarrow> bool" where
  "is_press MouseDown = True"
| "is_press TouchStart = True"
| "is_press _ = False"

fun is_release :: "event_type \<Rightarrow> bool" where
  "is_release MouseUp = True"
| "is_release TouchEnd = True"
| "is_release _ = False"

fun is_leave :: "event_type \<Rightarrow> bool" where
  "is_leave MouseLeave = True"
| "is_leave _ = False"

text \<open>
  The specification's description of the pressed state, in its own words: some press of
  the sequence has not yet been followed by a release or a leave.
\<close>

fun press_pending :: "event_type list \<Rightarrow> bool" where
  "press_pending [] = False"
| "press_pending (e # es) =
     ((is_press e \<and> list_all (\<lambda>x. \<not> is_release x \<and> \<not> is_leave x) es) \<or> press_pending es)"

text \<open>A host without audio, and a sequence of events on such a host.\<close>

definition without_audio :: "platform \<Rightarrow> platform" where
  "without_audio p = p\<lparr>has_AudioContext := False, has_webkitAudioContext := False\<rparr>"

definition mute :: "(event_type \<times> platform) list \<Rightarrow> (event_type \<times> platform) list" where
  "mute eps = map (\<lambda>(e, p). (e, without_audio p)) eps"

text \<open>A host for the examples: the standard constructor is there, a context reports
  itself suspended, and the clock stands at 0.\<close>

definition p0 :: platform where
  "p0 = \<lparr>has_AudioContext = True, has_webkitAudioContext = False,
         state_of = (\<lambda>_. Suspended), currentTime = (\<lambda>_. 0)\<rparr>"

section \<open>Auxiliary notions of the proofs\<close>

text \<open>
  None of the following is a function of the source. They name what the proofs reason
  about: whether \<^verbatim>\<open>getAudioContext\<close> will return a context, which one, and the
  effects of a call split into their parts.
\<close>

definition context_available :: "platform \<Rightarrow> world \<Rightarrow> bool" where
  "context_available p w \<longleftrightarrow>
     audioContextRef w \<noteq> None \<or> has_AudioContext p \<or> has_webkitAudioContext p"

definition context_of :: "world \<Rightarrow> nat" where
  "context_of w = (case audioContextRef w of None \<Rightarrow> constructed w | Some h \<Rightarrow> h)"

definition context_effects :: "platform \<Rightarrow> world \<Rightarrow> effect list" where
  "context_effects p w =
     (if audioContextRef w = None then [NewAudioContext (constructed w)] else [])
     @ (if state_of p (context_of w) = Suspended then [Resume (context_of w)] else [])"

definition sound_effects :: "variant \<Rightarrow> click_type \<Rightarrow> platform \<Rightarrow> world \<Rightarrow> effect list" where
  "sound_effects v ty p w =
     (let h = context_of w; t = currentTime p h; n = nodes w
      in graph_ops h n (n + 1) (n + 2) (n + 3) (n + 4)
         @ tone_ops v ty t (n + 1) (n + 2) (n + 3) (n + 4)
         @ start_stop_ops t (n + 1) (n + 3))"

definition prevented :: "variant \<Rightarrow> event_type \<Rightarrow> effect list" where
  "prevented v e = (if v = VariantA \<and> e = TouchEnd then [PreventDefault] else [])"

definition control_effects :: "variant \<Rightarrow> event_type \<Rightarrow> bool \<Rightarrow> effect list" where
  "control_effects v e b =
     (if is_press e then [SetIsPressed True, PlayClickSound Down]
      else if is_release e
      then prevented v e @ (if b then [SetIsPressed False, PlayClickSound Up, OnToggle] else [])
      else if b then [SetIsPressed False] else [])"

fun control_run :: "variant \<Rightarrow> event_type list \<Rightarrow> bool \<Rightarrow> effect list" where
  "control_run v [] b = []"
| "control_run v (e # es) b = control_effects v e b @ control_run v es (is_press e)"

definition one_context :: "world \<Rightarrow> bool" where
  "one_context w \<longleftrightarrow>
     constructed w = (if audioContextRef w = None then 0 else 1) \<and>
     length (contexts_created (trace w)) = constructed w"

section \<open>Lemmas on the audio context and the click sound\<close>

lemma map_filter_append:
  "List.map_filter f (xs @ ys) = List.map_filter f xs @ List.map_filter f ys"
  by (simp add: List.map_filter_def)

lemma emitted_append: "trace w' = trace w @ xs \<Longrightarrow> emitted w w' = xs"
  by (simp add: emitted_def)

lemma getAudioContext_unavailable:
  "\<not> context_available p w \<Longrightarrow> getAudioContext p w = (None, w)"
  by (simp add: getAudioContext_def context_available_def)

lemma getAudioContext_available:
  "context_available p w \<Longrightarrow>
   getAudioContext p w =
     (Some (context_of w),
      w\<lparr>audioContextRef := Some (context_of w),
        constructed := (if audioContextRef w = None then Suc (constructed w) else constructed w),
        trace := trace w @ context_effects p w\<rparr>)"
  by (cases "audioContextRef w")
     (auto simp: getAudioContext_def context_available_def context_of_def context_effects_def
        log_def Let_def)

lemma getAudioContext_None: "fst (getAudioContext p w) = None \<longleftrightarrow> \<not> context_available p w"
  by (cases "context_available p w")
     (simp_all add: getAudioContext_available getAudioContext_unavailable)

lemma playClickSound_unavailable:
  "\<not> context_available p w \<Longrightarrow> playClickSound v ty p w = Inr (log (PlayClickSound ty) w)"
  using getAudioContext_unavailable [of p "log (PlayClickSound ty) w"]
  by (simp add: playClickSound_def context_available_def log_def)

lemma playClickSound_available:
  "context_available p w \<Longrightarrow>
   playClickSound v ty p w =
     Inr (w\<lparr>audioContextRef := Some (context_of w),
            constructed := (if audioContextRef w = None then Suc (constructed w) else constructed w),
            nodes := nodes w + 5,
            trace := trace w @ [PlayClickSound ty] @ context_effects p w @ sound_effects v ty p w\<rparr>)"
  using getAudioContext_available [of p "log (PlayClickSound ty) w"]
  by (cases "audioContextRef w")
     (simp_all add: playClickSound_def context_available_def log_def Let_def sound_effects_def
        context_of_def context_effects_def)

lemma emitted_playClickSound:
  "context_available p w \<Longrightarrow> playClickSound v ty p w = Inr w' \<Longrightarrow>
   emitted w w' = [PlayClickSound ty] @ context_effects p w @ sound_effects v ty p w"
  by (auto simp: playClickSound_available emitted_def)

lemma tone_effects_available:
  "context_available p w \<Longrightarrow>
   tone_effects v ty p w = [PlayClickSound ty] @ context_effects p w @ sound_effects v ty p w"
  by (simp add: tone_effects_def playClickSound_available emitted_def)

lemma context_effects_obs:
  "List.map_filter created_oscillator (context_effects p w) = []"
  "List.map_filter created_gain (context_effects p w) = []"
  "List.map_filter waveform_set (context_effects p w) = []"
  "List.map_filter connection (context_effects p w) = []"
  "List.map_filter value_set (context_effects p w) = []"
  "List.map_filter started (context_effects p w) = []"
  "List.map_filter stopped (context_effects p w) = []"
  "List.map_filter value_set_at (context_effects p w) = []"
  "List.map_filter ramp_to (context_effects p w) = []"
  by (simp_all add: context_effects_def List.map_filter_def)

lemma tone_ops_obs:
  "List.map_filter created_oscillator (tone_ops v ty t a b c d) = []"
  "List.map_filter created_gain (tone_ops v ty t a b c d) = []"
  "List.map_filter waveform_set (tone_ops v ty t a b c d) = []"
  "List.map_filter connection (tone_ops v ty t a b c d) = []"
  "List.map_filter value_set (tone_ops v ty t a b c d) = []"
  "List.map_filter started (tone_ops v ty t a b c d) = []"
  "List.map_filter stopped (tone_ops v ty t a b c d) = []"
  by (cases v; cases ty; simp add: List.map_filter_simps)+

lemmas sound_defs = sound_effects_def graph_ops_def start_stop_ops_def Let_def

lemma tone_ops_sweeps:
  "List.map_filter value_set_at (tone_ops v ty t a b c d) =
     (case (v, ty) of
        (VariantA, Down) \<Rightarrow>
          [(Frequency a, 4500, t), (Gain b, 0.7, t), (Frequency c, 400, t), (Gain d, 0.3, t)]
      | (VariantA, Up) \<Rightarrow>
          [(Frequency a, 2800, t), (Gain b, 0.5, t), (Frequency c, 300, t), (Gain d, 0.4, t)]
      | (VariantB, Down) \<Rightarrow>
          [(Frequency a, 4500, t), (Gain b, 0.6, t), (Frequency c, 400, t), (Gain d, 0.2, t)]
      | (VariantB, Up) \<Rightarrow>
          [(Frequency a, 2800, t), (Gain b, 0.4, t), (Frequency c, 300, t), (Gain d, 0.3, t)])"
  "List.map_filter ramp_to (tone_ops v ty t a b c d) =
     (case (v, ty) of
        (VariantA, Down) \<Rightarrow>
          [(Frequency a, 1200, t + 0.008), (Gain b, 0.001, t + 0.012),
           (Frequency c, 100, t + 0.03), (Gain d, 0.001, t + 0.03)]
      | (VariantA, Up) \<Rightarrow>
          [(Frequency a, 800, t + 0.012), (Gain b, 0.001, t + 0.012),
           (Frequency c, 60, t + 0.05), (Gain d, 0.001, t + 0.05)]
      | (VariantB, Down) \<Rightarrow>
          [(Frequency a, 1200, t + 0.01), (Gain b, 0.001, t + 0.015),
           (Frequency c, 100, t + 0.04), (Gain d, 0.001, t + 0.04)]
      | (VariantB, Up) \<Rightarrow>
          [(Frequency a, 800, t + 0.015), (Gain b, 0.001, t + 0.015),
           (Frequency c, 60, t + 0.06), (Gain d, 0.001, t + 0.06)])"
  by (cases v; cases ty; simp add: List.map_filter_simps)+

lemma tone_effects_sweeps:
  assumes "context_available p w"
  shows "List.map_filter value_set_at (tone_effects v ty p w) =
      List.map_filter value_set_at
        (tone_ops v ty (currentTime p (context_of w))
           (nodes w + 1) (nodes w + 2) (nodes w + 3) (nodes w + 4))"
    and "List.map_filter ramp_to (tone_effects v ty p w) =
      List.map_filter ramp_to
        (tone_ops v ty (currentTime p (context_of w))
           (nodes w + 1) (nodes w + 2) (nodes w + 3) (nodes w + 4))"
  unfolding tone_effects_available [OF assms] map_filter_append context_effects_obs sound_defs
  by (simp_all add: List.map_filter_simps)

lemma tone_effects_p0:
  "tone_effects v ty p0 initial =
     [PlayClickSound ty, NewAudioContext 0, Resume 0]
     @ graph_ops 0 0 1 2 3 4 @ tone_ops v ty 0 1 2 3 4 @ start_stop_ops 0 1 3"
  by (simp add: tone_effects_available context_available_def p0_def context_effects_def
      sound_effects_def context_of_def initial_def numeral_2_eq_2)

lemma tone_ops_audio: "list_all is_audio_op (tone_ops v ty t a b c d)"
  by (cases v; cases ty) simp_all

lemma context_effects_audio: "list_all is_audio_op (context_effects p w)"
  by (simp add: context_effects_def)

lemma sound_effects_audio: "list_all is_audio_op (sound_effects v ty p w)"
  by (simp add: sound_defs tone_ops_audio)

lemma sound_effects_no_context: "List.map_filter context_created (sound_effects v ty p w) = []"
  by (cases v; cases ty) (simp_all add: sound_defs List.map_filter_simps)

lemma audio_only:
  assumes "list_all is_audio_op xs"
  shows "filter is_controller_call xs = []" and "OnToggle \<notin> set xs"
    and "PreventDefault \<notin> set xs" and "filter is_audio_op xs = xs"
    and "filter (\<lambda>x. \<not> is_audio_op x) xs = []" and "count_list xs OnToggle = 0"
proof -
  have a: "\<And>x. x \<in> set xs \<Longrightarrow> is_audio_op x"
    using assms by (simp add: list_all_iff)
  have c: "\<not> is_controller_call x" if "is_audio_op x" for x
    using that by (cases x) simp_all
  show "filter is_controller_call xs = []"
    using a c by (auto simp: filter_empty_conv)
  show 1: "OnToggle \<notin> set xs" using a by fastforce
  show "PreventDefault \<notin> set xs" using a by fastforce
  show "filter is_audio_op xs = xs" using a by (simp add: filter_id_conv)
  show "filter (\<lambda>x. \<not> is_audio_op x) xs = []" using a by (simp add: filter_empty_conv)
  show "count_list xs OnToggle = 0" using 1 by (simp add: count_list_0_iff)
qed

lemma audio_only_tones: "list_all is_audio_op xs \<Longrightarrow> List.map_filter played xs = []"
proof (induction xs)
  case Nil
  show ?case by (simp add: List.map_filter_simps)
next
  case (Cons x xs)
  then show ?case by (cases x) (simp_all add: List.map_filter_simps)
qed

section \<open>Lemmas on the handlers\<close>

text \<open>Every call of \<^verbatim>\<open>playClickSound\<close> returns, leaves \<open>isPressed\<close> alone, and
  emits its own record followed by calls of the audio interface only.\<close>

lemma playClickSound_shape:
  "\<exists>w' xs. playClickSound v ty p w = Inr w' \<and> isPressed w' = isPressed w \<and>
     trace w' = trace w @ PlayClickSound ty # xs \<and> list_all is_audio_op xs"
proof (cases "context_available p w")
  case True
  show ?thesis
    by (simp add: playClickSound_available [OF True] context_effects_audio sound_effects_audio)
next
  case False
  show ?thesis
    by (simp add: playClickSound_unavailable [OF False] log_def)
qed

lemma handlePressStart_shape:
  "\<exists>w' xs. handlePressStart v p w = Inr w' \<and> isPressed w' \<and>
     trace w' = trace w @ SetIsPressed True # PlayClickSound Down # xs \<and>
     list_all is_audio_op xs"
  using playClickSound_shape [of v Down p "setIsPressed True w"]
  by (auto simp: handlePressStart_def setIsPressed_def log_def)

lemma handlePressEnd_pressed:
  assumes "isPressed w"
  shows "\<exists>w' xs. handlePressEnd v e p w = Inr w' \<and> \<not> isPressed w' \<and>
     trace w' = trace w @ prevented v e
                  @ SetIsPressed False # PlayClickSound Up # xs @ [OnToggle] \<and>
     list_all is_audio_op xs"
proof -
  let ?w0 = "if v = VariantA \<and> e = TouchEnd then log PreventDefault w else w"
  obtain w2 xs where 2: "playClickSound v Up p (setIsPressed False ?w0) = Inr w2"
    "isPressed w2 = isPressed (setIsPressed False ?w0)"
    "trace w2 = trace (setIsPressed False ?w0) @ PlayClickSound Up # xs"
    "list_all is_audio_op xs"
    using playClickSound_shape by blast
  have "handlePressEnd v e p w = Inr (log OnToggle w2)"
    using assms 2(1) by (simp add: handlePressEnd_def Let_def)
  moreover have "\<not> isPressed (log OnToggle w2)"
    using 2(2) by (simp add: log_def setIsPressed_def)
  moreover have "trace (log OnToggle w2) =
      trace w @ prevented v e @ SetIsPressed False # PlayClickSound Up # xs @ [OnToggle]"
    using 2(3) by (simp add: log_def setIsPressed_def prevented_def)
  ultimately show ?thesis using 2(4) by blast
qed

lemma handlePressEnd_released:
  "\<not> isPressed w \<Longrightarrow> handlePressEnd v e p w = Inr (w\<lparr>trace := trace w @ prevented v e\<rparr>)"
  by (simp add: handlePressEnd_def prevented_def log_def)

lemma press_pending_last: "press_pending evs \<longleftrightarrow> evs \<noteq> [] \<and> is_press (last evs)"
proof (induction evs)
  case Nil
  show ?case by simp
next
  case (Cons e es)
  show ?case
  proof (cases "es = []")
    case True
    then show ?thesis by simp
  next
    case False
    have "is_press (last es)" if "list_all (\<lambda>x. \<not> is_release x \<and> \<not> is_leave x) es"
    proof -
      have "last es \<in> set es" using False by simp
      with that have "\<not> is_release (last es) \<and> \<not> is_leave (last es)"
        by (simp add: list_all_iff)
      then show ?thesis by (cases "last es") simp_all
    qed
    with Cons False show ?thesis by auto
  qed
qed

text \<open>One event: the run goes on, the button is pressed afterwards exactly when the
  event was a press, and what the controller emits does not depend on the host.\<close>

lemma dispatch_control:
  "\<exists>w'. dispatch v e p w = Inr w' \<and> isPressed w' = is_press e \<and>
     control_trace w' = control_trace w @ control_effects v e (isPressed w)"
proof -
  consider (press) "is_press e" | (release) "is_release e" | (leave) "e = MouseLeave"
    by (cases e) simp_all
  then show ?thesis
  proof cases
    case press
    then have d: "dispatch v e p w = handlePressStart v p w"
      by (cases e) simp_all
    obtain w' xs where s: "handlePressStart v p w = Inr w'" "isPressed w'"
      "trace w' = trace w @ SetIsPressed True # PlayClickSound Down # xs"
      "list_all is_audio_op xs"
      using handlePressStart_shape by blast
    show ?thesis
      using press d s(1,2)
      by (simp add: control_trace_def s(3) control_effects_def audio_only(5) [OF s(4)])
  next
    case release
    then have d: "dispatch v e p w = handlePressEnd v e p w" and np: "\<not> is_press e"
      by (cases e; simp)+
    show ?thesis
    proof (cases "isPressed w")
      case True
      obtain w' xs where s: "handlePressEnd v e p w = Inr w'" "\<not> isPressed w'"
        "trace w' = trace w @ prevented v e
                      @ SetIsPressed False # PlayClickSound Up # xs @ [OnToggle]"
        "list_all is_audio_op xs"
        using handlePressEnd_pressed [OF True] by blast
      show ?thesis
        using release np True d s(1,2)
        by (simp add: control_trace_def s(3) control_effects_def audio_only(5) [OF s(4)]
            prevented_def)
    next
      case False
      show ?thesis
        using release np False d
        by (simp add: handlePressEnd_released control_trace_def control_effects_def
            prevented_def)
    qed
  next
    case leave
    then show ?thesis
      by (simp add: handleMouseLeave_def setIsPressed_def log_def control_trace_def
          control_effects_def)
  qed
qed

lemma run_control:
  "\<exists>w'. run v eps w = Inr w' \<and>
     isPressed w' = (if eps = [] then isPressed w else is_press (fst (last eps))) \<and>
     control_trace w' = control_trace w @ control_run v (map fst eps) (isPressed w)"
proof (induction eps arbitrary: w)
  case Nil
  show ?case by simp
next
  case (Cons ep eps)
  obtain e p where ep: "ep = (e, p)" by (cases ep)
  obtain w1 where 1: "dispatch v e p w = Inr w1" "isPressed w1 = is_press e"
    "control_trace w1 = control_trace w @ control_effects v e (isPressed w)"
    using dispatch_control by blast
  obtain w' where 2: "run v eps w1 = Inr w'"
    "isPressed w' = (if eps = [] then isPressed w1 else is_press (fst (last eps)))"
    "control_trace w' = control_trace w1 @ control_run v (map fst eps) (isPressed w1)"
    using Cons.IH by blast
  show ?case using 1 2 by (simp add: ep)
qed

text \<open>On a host without audio, from an empty reference, no event touches the audio
  interface and the reference stays empty.\<close>

lemma dispatch_muted:
  assumes "audioContextRef w = None"
  shows "\<exists>w'. dispatch v e (without_audio p) w = Inr w' \<and> audioContextRef w' = None \<and>
     audio_ops (trace w') = audio_ops (trace w)"
proof -
  have u: "\<not> context_available (without_audio p) w'" if "audioContextRef w' = None" for w'
    using that by (simp add: context_available_def without_audio_def)
  have ps: "handlePressStart v (without_audio p) w =
      Inr (log (PlayClickSound Down) (setIsPressed True w))"
    unfolding handlePressStart_def
    by (rule playClickSound_unavailable) (simp add: u assms setIsPressed_def log_def)
  have pe: "handlePressEnd v e (without_audio p) w =
      Inr (if isPressed w
           then log OnToggle (log (PlayClickSound Up) (setIsPressed False
                  (if v = VariantA \<and> e = TouchEnd then log PreventDefault w else w)))
           else (if v = VariantA \<and> e = TouchEnd then log PreventDefault w else w))" for e
    unfolding handlePressEnd_def Let_def
    by (subst playClickSound_unavailable) (simp_all add: u assms setIsPressed_def log_def)
  show ?thesis
    by (cases e)
       (simp_all add: ps pe handleMouseLeave_def setIsPressed_def log_def audio_ops_def assms)
qed

lemma run_muted:
  "audioContextRef w = None \<Longrightarrow>
   \<exists>w'. run v (mute eps) w = Inr w' \<and> audioContextRef w' = None \<and>
     audio_ops (trace w') = audio_ops (trace w)"
proof (induction eps arbitrary: w)
  case Nil
  then show ?case by (simp add: mute_def)
next
  case (Cons ep eps)
  obtain e p where ep: "ep = (e, p)" by (cases ep)
  obtain w1 where 1: "dispatch v e (without_audio p) w = Inr w1" "audioContextRef w1 = None"
    "audio_ops (trace w1) = audio_ops (trace w)"
    using dispatch_muted [OF Cons.prems] by blast
  obtain w' where 2: "run v (mute eps) w1 = Inr w'" "audioContextRef w' = None"
    "audio_ops (trace w') = audio_ops (trace w1)"
    using Cons.IH [OF 1(2)] by blast
  show ?case using 1 2 by (simp add: ep mute_def)
qed

text \<open>The invariant of the audio context: none constructed and the reference empty, or
  one constructed and the reference set.\<close>

lemma log_one_context:
  "context_created x = None \<Longrightarrow> one_context w \<Longrightarrow> one_context (log x w)"
  by (simp add: one_context_def log_def contexts_created_def map_filter_append
      List.map_filter_simps)

lemma setIsPressed_one_context: "one_context w \<Longrightarrow> one_context (setIsPressed b w)"
  by (simp add: one_context_def setIsPressed_def log_def contexts_created_def
      map_filter_append List.map_filter_simps)

lemma playClickSound_one_context:
  assumes "one_context w" and "playClickSound v ty p w = Inr w'"
  shows "one_context w'"
proof (cases "context_available p w")
  case True
  have "w' = w\<lparr>audioContextRef := Some (context_of w),
            constructed := (if audioContextRef w = None then Suc (constructed w)
                            else constructed w),
            nodes := nodes w + 5,
            trace := trace w @ [PlayClickSound ty] @ context_effects p w
                       @ sound_effects v ty p w\<rparr>"
    using assms(2) by (simp add: playClickSound_available [OF True])
  then show ?thesis
    using assms(1)
    by (simp add: one_context_def contexts_created_def map_filter_append
        sound_effects_no_context context_effects_def List.map_filter_simps)
next
  case False
  have "w' = log (PlayClickSound ty) w"
    using assms(2) by (simp add: playClickSound_unavailable [OF False])
  then show ?thesis using assms(1) by (simp add: log_one_context)
qed

lemma dispatch_one_context:
  assumes "one_context w" and "dispatch v e p w = Inr w'"
  shows "one_context w'"
proof -
  have ps: "one_context w'" if "handlePressStart v p w = Inr w'"
    using that playClickSound_one_context [OF setIsPressed_one_context [OF assms(1)]]
    by (simp add: handlePressStart_def)
  have pe: "one_context w'" if h: "handlePressEnd v e p w = Inr w'" for e
  proof -
    let ?w0 = "if v = VariantA \<and> e = TouchEnd then log PreventDefault w else w"
    have 0: "one_context ?w0" using assms(1) by (simp add: log_one_context)
    show ?thesis
    proof (cases "isPressed w")
      case True
      obtain w2 where 2: "playClickSound v Up p (setIsPressed False ?w0) = Inr w2"
        using playClickSound_shape by blast
      have "one_context w2"
        using playClickSound_one_context [OF setIsPressed_one_context [OF 0] 2] .
      moreover have "w' = log OnToggle w2"
        using h True 2 by (simp add: handlePressEnd_def Let_def)
      ultimately show ?thesis by (simp add: log_one_context)
    next
      case False
      then have "w' = ?w0" using h by (simp add: handlePressEnd_def Let_def)
      then show ?thesis using 0 by simp
    qed
  qed
  show ?thesis
    using assms ps pe
    by (cases e) (auto simp: handleMouseLeave_def setIsPressed_one_context)
qed

lemma run_one_context:
  "one_context w \<Longrightarrow> run v eps w = Inr w' \<Longrightarrow> one_context w'"
proof (induction eps arbitrary: w)
  case Nil
  then show ?case by simp
next
  case (Cons ep eps)
  obtain e p where ep: "ep = (e, p)" by (cases ep)
  obtain w1 where 1: "dispatch v e p w = Inr w1"
    using dispatch_control by blast
  have "one_context w1" using dispatch_one_context [OF Cons.prems(1) 1] .
  moreover have "run v eps w1 = Inr w'" using Cons.prems(2) 1 by (simp add: ep)
  ultimately show ?case by (rule Cons.IH)
qed

section \<open>The claims\<close>

subsection \<open>The state machine of the controller\<close>

text \<open>
  Claim C1. A pointer-up or touch-end that arrives while the button is pressed sets
  \<open>isPressed\<close> to false, calls \<^verbatim>\<open>playClickSound('up')\<close> and then calls
  \<^verbatim>\<open>onToggle\<close>, once, in that order and as the last thing it does. No other event, and no
  pointer-up that arrives while the button is released, calls \<^verbatim>\<open>onToggle\<close>. Every
  event returns without an error. (In the first copy of the file a touch-end also calls
  \<^verbatim>\<open>preventDefault\<close> on the event, before the three calls.)
\<close>

theorem pointer_up_commits_toggle:
  "\<exists>w'. dispatch v e p w = Inr w' \<and>
     (if isPressed w \<and> is_release e
      then \<not> isPressed w' \<and>
           controller_calls (emitted w w') = [SetIsPressed False, PlayClickSound Up, OnToggle] \<and>
           count_list (emitted w w') OnToggle = 1 \<and>
           last (emitted w w') = OnToggle
      else OnToggle \<notin> set (emitted w w'))"
proof (cases "is_release e")
  case True
  then have d: "dispatch v e p w = handlePressEnd v e p w"
    by (cases e) simp_all
  show ?thesis
  proof (cases "isPressed w")
    case pressed: True
    obtain w' xs where s: "handlePressEnd v e p w = Inr w'" "\<not> isPressed w'"
      "trace w' = trace w @ prevented v e
                    @ SetIsPressed False # PlayClickSound Up # xs @ [OnToggle]"
      "list_all is_audio_op xs"
      using handlePressEnd_pressed [OF pressed] by blast
    have e: "emitted w w' =
        prevented v e @ SetIsPressed False # PlayClickSound Up # xs @ [OnToggle]"
      using s(3) by (rule emitted_append)
    have "controller_calls (emitted w w') = [SetIsPressed False, PlayClickSound Up, OnToggle]"
      unfolding e by (simp add: controller_calls_def prevented_def audio_only(1) [OF s(4)])
    moreover have "count_list (emitted w w') OnToggle = 1"
      unfolding e by (simp add: prevented_def audio_only(6) [OF s(4)])
    moreover have "last (emitted w w') = OnToggle"
      unfolding e by (simp add: prevented_def)
    ultimately show ?thesis
      using pressed True s(1,2) d by simp
  next
    case False
    show ?thesis
      using False d by (simp add: handlePressEnd_released emitted_def prevented_def)
  qed
next
  case False
  show ?thesis
  proof (cases "is_press e")
    case True
    then have d: "dispatch v e p w = handlePressStart v p w"
      by (cases e) simp_all
    obtain w' xs where s: "handlePressStart v p w = Inr w'"
      "trace w' = trace w @ SetIsPressed True # PlayClickSound Down # xs"
      "list_all is_audio_op xs"
      using handlePressStart_shape by blast
    show ?thesis
      using False d s(1) emitted_append [OF s(2)] audio_only(2) [OF s(3)] by simp
  next
    case notpress: False
    with False have "e = MouseLeave" by (cases e) simp_all
    then show ?thesis
      by (simp add: handleMouseLeave_def setIsPressed_def log_def emitted_def)
  qed
qed

theorem pointer_up_commits_toggle_witness:
  "isPressed (initial\<lparr>isPressed := True\<rparr>) \<and> is_release MouseUp \<and>
   (\<exists>w'. dispatch VariantA MouseUp p0 (initial\<lparr>isPressed := True\<rparr>) = Inr w' \<and>
      \<not> isPressed w' \<and>
      controller_calls (emitted (initial\<lparr>isPressed := True\<rparr>) w') =
        [SetIsPressed False, PlayClickSound Up, OnToggle] \<and>
      count_list (emitted (initial\<lparr>isPressed := True\<rparr>) w') OnToggle = 1 \<and>
      last (emitted (initial\<lparr>isPressed := True\<rparr>) w') = OnToggle)"
  using pointer_up_commits_toggle [of VariantA MouseUp p0 "initial\<lparr>isPressed := True\<rparr>"]
  by simp

text \<open>
  Claim C2. After every sequence of pointer-down, pointer-up and pointer-leave events
  (mouse or touch) from the initial, released state, the run has returned and
  \<open>isPressed\<close> is true if and only if a press of the sequence has not yet been followed
  by a release or a leave.
\<close>

theorem pressed_iff_press_pending:
  "\<exists>w. run v eps initial = Inr w \<and> (isPressed w \<longleftrightarrow> press_pending (map fst eps))"
proof -
  obtain w where w: "run v eps initial = Inr w"
    "isPressed w = (if eps = [] then isPressed initial else is_press (fst (last eps)))"
    using run_control by blast
  have "isPressed w \<longleftrightarrow> press_pending (map fst eps)"
    unfolding w(2) press_pending_last by (simp add: initial_def last_map)
  with w(1) show ?thesis by blast
qed

theorem pressed_iff_press_pending_witness:
  "\<exists>w. run VariantA [(MouseDown, p0), (MouseUp, p0), (TouchStart, p0)] initial = Inr w \<and>
     isPressed w"
  using pressed_iff_press_pending
    [of VariantA "[(MouseDown, p0), (MouseUp, p0), (TouchStart, p0)]"]
  by simp

text \<open>
  Claim C3. A pointer-leave that arrives while the button is pressed sets \<open>isPressed\<close>
  to false and does nothing else: the new state is the old one with \<open>isPressed\<close> false
  and the one call of the setter added to the trace. A pointer-down followed by a
  pointer-leave, from any state, calls \<^verbatim>\<open>playClickSound\<close> once, with \<^verbatim>\<open>'down'\<close>, and
  \<^verbatim>\<open>onToggle\<close> never.
\<close>

theorem pointer_leave_aborts:
  "(isPressed w \<longrightarrow>
      dispatch v MouseLeave p w =
        Inr (w\<lparr>isPressed := False, trace := trace w @ [SetIsPressed False]\<rparr>)) \<and>
   (is_press e \<longrightarrow>
      (\<exists>w'. run v [(e, p1), (MouseLeave, p2)] w0 = Inr w' \<and> \<not> isPressed w' \<and>
         tones (emitted w0 w') = [Down] \<and> count_list (emitted w0 w') OnToggle = 0))"
proof (intro conjI impI)
  assume "isPressed w"
  then show "dispatch v MouseLeave p w =
      Inr (w\<lparr>isPressed := False, trace := trace w @ [SetIsPressed False]\<rparr>)"
    by (simp add: handleMouseLeave_def setIsPressed_def log_def)
next
  assume "is_press e"
  then have d: "dispatch v e p1 w0 = handlePressStart v p1 w0"
    by (cases e) simp_all
  obtain w1 xs where s: "handlePressStart v p1 w0 = Inr w1" "isPressed w1"
    "trace w1 = trace w0 @ SetIsPressed True # PlayClickSound Down # xs"
    "list_all is_audio_op xs"
    using handlePressStart_shape by blast
  let ?w' = "setIsPressed False w1"
  have r: "run v [(e, p1), (MouseLeave, p2)] w0 = Inr ?w'"
    using d s(1,2) by (simp add: handleMouseLeave_def)
  have e: "emitted w0 ?w' = SetIsPressed True # PlayClickSound Down # xs @ [SetIsPressed False]"
    by (rule emitted_append) (simp add: setIsPressed_def log_def s(3))
  have "tones (emitted w0 ?w') = [Down]"
    unfolding e tones_def
    by (simp add: List.map_filter_simps map_filter_append audio_only_tones [OF s(4)])
  moreover have "count_list (emitted w0 ?w') OnToggle = 0"
    unfolding e by (simp add: audio_only(6) [OF s(4)])
  moreover have "\<not> isPressed ?w'" by (simp add: setIsPressed_def log_def)
  ultimately show "\<exists>w'. run v [(e, p1), (MouseLeave, p2)] w0 = Inr w' \<and> \<not> isPressed w' \<and>
         tones (emitted w0 w') = [Down] \<and> count_list (emitted w0 w') OnToggle = 0"
    using r by blast
qed

theorem pointer_leave_aborts_witness:
  "isPressed (initial\<lparr>isPressed := True\<rparr>) \<and> is_press MouseDown \<and>
   dispatch VariantA MouseLeave p0 (initial\<lparr>isPressed := True\<rparr>) =
     Inr (initial\<lparr>isPressed := False, trace := [SetIsPressed False]\<rparr>) \<and>
   (\<exists>w'. run VariantA [(MouseDown, p0), (MouseLeave, p0)] initial = Inr w' \<and>
      \<not> isPressed w' \<and> tones (emitted initial w') = [Down] \<and>
      count_list (emitted initial w') OnToggle = 0)"
  using pointer_leave_aborts
    [of "initial\<lparr>isPressed := True\<rparr>" VariantA p0 MouseDown p0 p0 initial]
  by (simp add: initial_def)

text \<open>
  Claim C10. A pointer-up or touch-end that arrives while the button is released leaves
  \<open>isPressed\<close> false, the audio context reference and the counts of contexts and nodes
  as they were, calls neither \<^verbatim>\<open>playClickSound\<close> nor the audio interface nor
  \<^verbatim>\<open>onToggle\<close>, and returns without an error. The whole of what it emits is the
  \<^verbatim>\<open>preventDefault\<close> of a touch-end in the first copy of the file, and nothing otherwise.
\<close>

theorem pointer_up_released_noop:
  assumes "\<not> isPressed w" and "is_release e"
  shows "\<exists>w'. dispatch v e p w = Inr w' \<and> \<not> isPressed w' \<and>
     audioContextRef w' = audioContextRef w \<and> constructed w' = constructed w \<and>
     nodes w' = nodes w \<and>
     emitted w w' = (if v = VariantA \<and> e = TouchEnd then [PreventDefault] else []) \<and>
     tones (emitted w w') = [] \<and> audio_ops (emitted w w') = [] \<and>
     OnToggle \<notin> set (emitted w w')"
proof -
  have d: "dispatch v e p w = handlePressEnd v e p w"
    using assms(2) by (cases e) simp_all
  show ?thesis
    unfolding d handlePressEnd_released [OF assms(1)]
    using assms(1)
    by (simp add: emitted_def prevented_def tones_def audio_ops_def List.map_filter_simps)
qed

theorem pointer_up_released_noop_witness:
  "\<not> isPressed initial \<and> is_release MouseUp \<and>
   (\<exists>w'. dispatch VariantA MouseUp p0 initial = Inr w' \<and> \<not> isPressed w' \<and>
      audioContextRef w' = audioContextRef initial \<and> constructed w' = constructed initial \<and>
      nodes w' = nodes initial \<and> emitted initial w' = [] \<and>
      tones (emitted initial w') = [] \<and> audio_ops (emitted initial w') = [] \<and>
      OnToggle \<notin> set (emitted initial w'))"
  using pointer_up_released_noop [of initial MouseUp VariantA p0]
  by (simp add: initial_def)

subsection \<open>The audio context\<close>

text \<open>
  Claim C4. For both click types, when \<^verbatim>\<open>getAudioContext\<close> returns no context,
  \<^verbatim>\<open>playClickSound\<close> returns without an error and changes nothing but the record of
  its own call: no audio node is created and \<open>isPressed\<close> is untouched. And every
  sequence of events that runs on some host runs on the same host without audio as well,
  with the same final \<open>isPressed\<close> and the same calls of the setter, of
  \<^verbatim>\<open>playClickSound\<close>, of \<^verbatim>\<open>preventDefault\<close> and of \<^verbatim>\<open>onToggle\<close> in the same
  order, and with no call of the audio interface.
\<close>

theorem unavailable_audio_is_silent:
  "(fst (getAudioContext p w) = None \<longrightarrow>
      playClickSound v ty p w = Inr (w\<lparr>trace := trace w @ [PlayClickSound ty]\<rparr>)) \<and>
   (\<exists>w1 w2. run v eps initial = Inr w1 \<and> run v (mute eps) initial = Inr w2 \<and>
      isPressed w2 = isPressed w1 \<and> control_trace w2 = control_trace w1 \<and>
      audio_ops (trace w2) = [])"
proof (intro conjI impI)
  assume "fst (getAudioContext p w) = None"
  then have "\<not> context_available p w" by (simp add: getAudioContext_None)
  then show "playClickSound v ty p w = Inr (w\<lparr>trace := trace w @ [PlayClickSound ty]\<rparr>)"
    by (simp add: playClickSound_unavailable log_def)
next
  obtain w1 where 1: "run v eps initial = Inr w1"
    "isPressed w1 = (if eps = [] then isPressed initial else is_press (fst (last eps)))"
    "control_trace w1 = control_trace initial @ control_run v (map fst eps) (isPressed initial)"
    using run_control by blast
  obtain w2 where 2: "run v (mute eps) initial = Inr w2"
    "isPressed w2 =
       (if mute eps = [] then isPressed initial else is_press (fst (last (mute eps))))"
    "control_trace w2 =
       control_trace initial @ control_run v (map fst (mute eps)) (isPressed initial)"
    using run_control by blast
  obtain w3 where 3: "run v (mute eps) initial = Inr w3"
    "audio_ops (trace w3) = audio_ops (trace initial)"
    using run_muted [of initial v eps] by (auto simp: initial_def)
  have m: "map fst (mute eps) = map fst eps"
    by (simp add: mute_def case_prod_unfold comp_def)
  have l: "fst (last (mute eps)) = fst (last eps)" if "eps \<noteq> []"
    using that m by (metis last_map map_is_Nil_conv)
  have "isPressed w2 = isPressed w1"
    unfolding 1(2) 2(2) using l by (cases "eps = []") (simp_all add: mute_def)
  moreover have "control_trace w2 = control_trace w1"
    unfolding 1(3) 2(3) m ..
  moreover have "audio_ops (trace w2) = []"
    using 2(1) 3 by (simp add: initial_def audio_ops_def)
  ultimately show "\<exists>w1 w2. run v eps initial = Inr w1 \<and> run v (mute eps) initial = Inr w2 \<and>
      isPressed w2 = isPressed w1 \<and> control_trace w2 = control_trace w1 \<and>
      audio_ops (trace w2) = []"
    using 1(1) 2(1) by blast
qed

theorem unavailable_audio_is_silent_witness:
  "fst (getAudioContext (without_audio p0) initial) = None \<and>
   playClickSound VariantA Up (without_audio p0) initial =
     Inr (initial\<lparr>trace := [PlayClickSound Up]\<rparr>) \<and>
   (\<exists>w1 w2. run VariantA [(MouseDown, p0), (MouseUp, p0)] initial = Inr w1 \<and>
      run VariantA (mute [(MouseDown, p0), (MouseUp, p0)]) initial = Inr w2 \<and>
      isPressed w2 = isPressed w1 \<and> control_trace w2 = control_trace w1 \<and>
      audio_ops (trace w2) = [])"
proof -
  have h: "fst (getAudioContext (without_audio p0) initial) = None"
    by (simp add: getAudioContext_def without_audio_def initial_def)
  show ?thesis
    using h unavailable_audio_is_silent
      [of "without_audio p0" initial VariantA Up "[(MouseDown, p0), (MouseUp, p0)]"]
    by (simp add: initial_def)
qed

text \<open>
  Claim C5. Along every sequence of events on one mounted component, from the initial
  state, at most one audio context is ever constructed. And once
  \<^verbatim>\<open>getAudioContext\<close> has returned a context, the next call, whatever the host
  then answers, returns the same context and constructs none.
\<close>

theorem audio_context_singleton:
  "(\<exists>w. run v eps initial = Inr w \<and> constructed w \<le> 1 \<and>
       length (contexts_created (trace w)) \<le> 1) \<and>
   (getAudioContext p w0 = (Some h, w1) \<longrightarrow>
      (\<exists>w2. getAudioContext p' w1 = (Some h, w2) \<and> constructed w2 = constructed w1 \<and>
         contexts_created (emitted w1 w2) = []))"
proof (intro conjI impI)
  obtain w where w: "run v eps initial = Inr w"
    using run_control by blast
  have "one_context initial"
    by (simp add: one_context_def initial_def contexts_created_def List.map_filter_simps)
  then have "one_context w" using w by (rule run_one_context)
  then have "constructed w \<le> 1 \<and> length (contexts_created (trace w)) \<le> 1"
    by (simp add: one_context_def)
  with w show "\<exists>w. run v eps initial = Inr w \<and> constructed w \<le> 1 \<and>
       length (contexts_created (trace w)) \<le> 1" by blast
next
  assume g: "getAudioContext p w0 = (Some h, w1)"
  have r: "audioContextRef w1 = Some h"
    using g by (cases "context_available p w0")
      (auto simp: getAudioContext_available getAudioContext_unavailable)
  then have a: "context_available p' w1" by (simp add: context_available_def)
  show "\<exists>w2. getAudioContext p' w1 = (Some h, w2) \<and> constructed w2 = constructed w1 \<and>
         contexts_created (emitted w1 w2) = []"
    using r
    by (simp add: getAudioContext_available [OF a] context_of_def emitted_def
        contexts_created_def context_effects_def List.map_filter_simps)
qed

theorem audio_context_singleton_witness:
  "getAudioContext p0 initial = (Some 0, snd (getAudioContext p0 initial)) \<and>
   (\<exists>w. run VariantA [(MouseDown, p0), (MouseUp, p0), (MouseDown, p0)] initial = Inr w \<and>
      constructed w \<le> 1 \<and> length (contexts_created (trace w)) \<le> 1) \<and>
   (\<exists>w2. getAudioContext (without_audio p0) (snd (getAudioContext p0 initial)) = (Some 0, w2) \<and>
      constructed w2 = constructed (snd (getAudioContext p0 initial)) \<and>
      contexts_created (emitted (snd (getAudioContext p0 initial)) w2) = [])"
proof -
  have g: "getAudioContext p0 initial = (Some 0, snd (getAudioContext p0 initial))"
    by (simp add: getAudioContext_def p0_def initial_def log_def)
  show ?thesis
    using g audio_context_singleton
      [of VariantA "[(MouseDown, p0), (MouseUp, p0), (MouseDown, p0)]" p0 initial 0
          "snd (getAudioContext p0 initial)" "without_audio p0"]
    by blast
qed

text \<open>
  Claim C9. A failed construction is not remembered. When the reference is empty and the
  host has no constructor, \<^verbatim>\<open>getAudioContext\<close> returns no context and leaves the state
  exactly as it was; a later call on a host that has a constructor then constructs a
  context, stores it and returns it.
\<close>

theorem construction_failure_not_cached:
  assumes "audioContextRef w = None"
    and "\<not> has_AudioContext p1" and "\<not> has_webkitAudioContext p1"
    and "has_AudioContext p2 \<or> has_webkitAudioContext p2"
  shows "getAudioContext p1 w = (None, w) \<and>
     (\<exists>h w2. getAudioContext p2 (snd (getAudioContext p1 w)) = (Some h, w2) \<and>
        audioContextRef w2 = Some h \<and> contexts_created (emitted w w2) = [h])"
proof -
  have 1: "getAudioContext p1 w = (None, w)"
    using assms(1-3) by (simp add: getAudioContext_unavailable context_available_def)
  have a: "context_available p2 w"
    using assms(4) by (auto simp: context_available_def)
  have "contexts_created (emitted w (snd (getAudioContext p2 w))) = [constructed w]"
    using assms(1)
    by (simp add: getAudioContext_available [OF a] emitted_def contexts_created_def
        context_effects_def List.map_filter_simps map_filter_append context_of_def)
  then show ?thesis
    unfolding 1 using assms(1) by (simp add: getAudioContext_available [OF a] context_of_def)
qed

theorem construction_failure_not_cached_witness:
  "audioContextRef initial = None \<and>
   \<not> has_AudioContext (without_audio p0) \<and> \<not> has_webkitAudioContext (without_audio p0) \<and>
   (has_AudioContext p0 \<or> has_webkitAudioContext p0) \<and>
   getAudioContext (without_audio p0) initial = (None, initial) \<and>
   (\<exists>h w2. getAudioContext p0 (snd (getAudioContext (without_audio p0) initial)) = (Some h, w2) \<and>
      audioContextRef w2 = Some h \<and> contexts_created (emitted initial w2) = [h])"
proof -
  have h: "audioContextRef initial = None" "\<not> has_AudioContext (without_audio p0)"
    "\<not> has_webkitAudioContext (without_audio p0)"
    "has_AudioContext p0 \<or> has_webkitAudioContext p0"
    by (simp_all add: initial_def without_audio_def p0_def)
  show ?thesis
    using h construction_failure_not_cached [OF h] by blast
qed

subsection \<open>The click sound\<close>

text \<open>
  Claim C6. For both click types, every call of \<^verbatim>\<open>playClickSound\<close> for which
  \<^verbatim>\<open>getAudioContext\<close> returns a context returns without an error and creates exactly
  two oscillators, the first a triangle wave (the snap) and the second a sine wave (the
  body), and exactly three gain nodes. Each oscillator is connected to a gain node of its
  own, both of these are connected to the third, the master gain, whose gain is set to 1
  and which is connected to the destination of the context. There is no other connection.
\<close>

theorem click_sound_graph:
  assumes "fst (getAudioContext p w) \<noteq> None"
  shows "\<exists>w' h. playClickSound v ty p w = Inr w' \<and> audioContextRef w' = Some h \<and>
     oscillators (emitted w w') = [nodes w + 1, nodes w + 3] \<and>
     waveforms (emitted w w') = [(nodes w + 1, Triangle), (nodes w + 3, Sine)] \<and>
     gain_nodes (emitted w w') = [nodes w, nodes w + 2, nodes w + 4] \<and>
     fixed_values (emitted w w') = [(Gain (nodes w), 1)] \<and>
     connections (emitted w w') =
       [(nodes w, Destination h),
        (nodes w + 1, Node (nodes w + 2)), (nodes w + 2, Node (nodes w)),
        (nodes w + 3, Node (nodes w + 4)), (nodes w + 4, Node (nodes w))]"
proof -
  have a: "context_available p w"
    using assms by (simp add: getAudioContext_None)
  obtain w' where w': "playClickSound v ty p w = Inr w'"
    using playClickSound_available [OF a] by blast
  have h: "audioContextRef w' = Some (context_of w)"
    using w' by (auto simp: playClickSound_available [OF a])
  note e = emitted_playClickSound [OF a w']
  have 1: "oscillators (emitted w w') = [nodes w + 1, nodes w + 3]"
    unfolding e oscillators_def map_filter_append context_effects_obs sound_defs tone_ops_obs
    by (simp add: List.map_filter_simps)
  have 2: "waveforms (emitted w w') = [(nodes w + 1, Triangle), (nodes w + 3, Sine)]"
    unfolding e waveforms_def map_filter_append context_effects_obs sound_defs tone_ops_obs
    by (simp add: List.map_filter_simps)
  have 3: "gain_nodes (emitted w w') = [nodes w, nodes w + 2, nodes w + 4]"
    unfolding e gain_nodes_def map_filter_append context_effects_obs sound_defs tone_ops_obs
    by (simp add: List.map_filter_simps)
  have 4: "fixed_values (emitted w w') = [(Gain (nodes w), 1)]"
    unfolding e fixed_values_def map_filter_append context_effects_obs sound_defs tone_ops_obs
    by (simp add: List.map_filter_simps)
  have 5: "connections (emitted w w') =
       [(nodes w, Destination (context_of w)),
        (nodes w + 1, Node (nodes w + 2)), (nodes w + 2, Node (nodes w)),
        (nodes w + 3, Node (nodes w + 4)), (nodes w + 4, Node (nodes w))]"
    unfolding e connections_def map_filter_append context_effects_obs sound_defs tone_ops_obs
    by (simp add: List.map_filter_simps)
  from w' h 1 2 3 4 5 show ?thesis by blast
qed

theorem click_sound_graph_witness:
  "fst (getAudioContext p0 initial) \<noteq> None \<and>
   (\<exists>w' h. playClickSound VariantA Down p0 initial = Inr w' \<and> audioContextRef w' = Some h \<and>
      oscillators (emitted initial w') = [1, 3] \<and>
      waveforms (emitted initial w') = [(1, Triangle), (3, Sine)] \<and>
      gain_nodes (emitted initial w') = [0, 2, 4] \<and>
      fixed_values (emitted initial w') = [(Gain 0, 1)] \<and>
      connections (emitted initial w') =
        [(0, Destination h), (1, Node 2), (2, Node 0), (3, Node 4), (4, Node 0)])"
proof -
  have h: "fst (getAudioContext p0 initial) \<noteq> None"
    by (simp add: getAudioContext_def p0_def initial_def log_def)
  have n: "nodes initial = 0" by (simp add: initial_def)
  show ?thesis
    using h click_sound_graph [OF h, of VariantA Down] unfolding n
    by (simp add: numeral_2_eq_2)
qed

text \<open>
  Claim C7. For both click types, every call of \<^verbatim>\<open>playClickSound\<close> that has a
  context and reads the time \<open>t\<close> from it starts both oscillators at \<open>t\<close>, stops the
  snap oscillator at \<open>t + 0.03\<close> and the body oscillator at \<open>t + 0.1\<close>, and schedules no
  other start or stop; the stop time of the snap oscillator is strictly less than that of
  the body oscillator. The times are exact rationals here.
\<close>

theorem oscillator_stop_order:
  assumes "fst (getAudioContext p w) \<noteq> None"
  shows "\<exists>w' h. playClickSound v ty p w = Inr w' \<and> audioContextRef w' = Some h \<and>
     starts (emitted w w') = [(nodes w + 1, currentTime p h), (nodes w + 3, currentTime p h)] \<and>
     stops (emitted w w') =
       [(nodes w + 1, currentTime p h + 0.03), (nodes w + 3, currentTime p h + 0.1)] \<and>
     lt_opt (map_of (stops (emitted w w')) (nodes w + 1))
            (map_of (stops (emitted w w')) (nodes w + 3))"
proof -
  have a: "context_available p w"
    using assms by (simp add: getAudioContext_None)
  obtain w' where w': "playClickSound v ty p w = Inr w'"
    using playClickSound_available [OF a] by blast
  have h: "audioContextRef w' = Some (context_of w)"
    using w' by (auto simp: playClickSound_available [OF a])
  note e = emitted_playClickSound [OF a w']
  have 1: "starts (emitted w w') =
      [(nodes w + 1, currentTime p (context_of w)), (nodes w + 3, currentTime p (context_of w))]"
    unfolding e starts_def map_filter_append context_effects_obs sound_defs tone_ops_obs
    by (simp add: List.map_filter_simps)
  have 2: "stops (emitted w w') =
      [(nodes w + 1, currentTime p (context_of w) + 0.03),
       (nodes w + 3, currentTime p (context_of w) + 0.1)]"
    unfolding e stops_def map_filter_append context_effects_obs sound_defs tone_ops_obs
    by (simp add: List.map_filter_simps)
  have 3: "lt_opt (map_of (stops (emitted w w')) (nodes w + 1))
                  (map_of (stops (emitted w w')) (nodes w + 3))"
    unfolding 2 by (simp add: lt_opt_def)
  from w' h 1 2 3 show ?thesis by blast
qed

theorem oscillator_stop_order_witness:
  "fst (getAudioContext p0 initial) \<noteq> None \<and>
   (\<exists>w' h. playClickSound VariantA Up p0 initial = Inr w' \<and> audioContextRef w' = Some h \<and>
      starts (emitted initial w') = [(1, 0), (3, 0)] \<and>
      stops (emitted initial w') = [(1, 0.03), (3, 0.1)] \<and>
      lt_opt (map_of (stops (emitted initial w')) 1) (map_of (stops (emitted initial w')) 3))"
proof -
  have h: "fst (getAudioContext p0 initial) \<noteq> None"
    by (simp add: getAudioContext_def p0_def initial_def log_def)
  have n: "nodes initial = 0" by (simp add: initial_def)
  have t: "currentTime p0 h = 0" for h by (simp add: p0_def)
  show ?thesis
    using h oscillator_stop_order [OF h, of VariantA Up] unfolding n t by simp
qed

text \<open>
  Claim C8, as the specification states it, asks that every ramp and decay window of the
  release tone be longer than the corresponding window of the press tone. The decay
  window of the snap gain is not: in the first copy of the file it is 0.012 seconds for
  both tones.
\<close>

theorem release_snap_decay_not_longer:
  "\<not> lt_opt (window (Gain 2) (tone_effects VariantA Down p0 initial))
             (window (Gain 2) (tone_effects VariantA Up p0 initial))"
  by (simp add: tone_effects_p0 graph_ops_def start_stop_ops_def window_def lt_opt_def)

text \<open>
  Claim C8, amended. In both copies of the file and for every call that has a context,
  the release tone, compared to the press tone, starts both oscillators at a lower
  frequency, has a lower peak gain for the snap and a higher peak gain for the body, and
  has a strictly longer frequency ramp for the snap, a strictly longer frequency ramp for
  the body and a strictly longer gain decay for the body; the gain decay of the snap has
  the same length for both tones.
\<close>

theorem release_tone_against_press_tone:
  assumes "fst (getAudioContext p w) \<noteq> None"
  shows "let d = tone_effects v Down p w; u = tone_effects v Up p w;
       snapOsc = nodes w + 1; snapGain = nodes w + 2;
       bodyOsc = nodes w + 3; bodyGain = nodes w + 4
     in lt_opt (start_value (Frequency snapOsc) u) (start_value (Frequency snapOsc) d) \<and>
        lt_opt (start_value (Frequency bodyOsc) u) (start_value (Frequency bodyOsc) d) \<and>
        lt_opt (start_value (Gain snapGain) u) (start_value (Gain snapGain) d) \<and>
        lt_opt (start_value (Gain bodyGain) d) (start_value (Gain bodyGain) u) \<and>
        lt_opt (window (Frequency snapOsc) d) (window (Frequency snapOsc) u) \<and>
        lt_opt (window (Frequency bodyOsc) d) (window (Frequency bodyOsc) u) \<and>
        lt_opt (window (Gain bodyGain) d) (window (Gain bodyGain) u) \<and>
        window (Gain snapGain) d = window (Gain snapGain) u \<and>
        window (Gain snapGain) d \<noteq> None"
proof -
  have a: "context_available p w"
    using assms by (simp add: getAudioContext_None)
  show ?thesis
    unfolding Let_def start_value_def window_def tone_effects_sweeps [OF a] tone_ops_sweeps
    by (cases v) (simp_all add: lt_opt_def)
qed

theorem release_tone_against_press_tone_witness:
  "fst (getAudioContext p0 initial) \<noteq> None \<and>
   lt_opt (start_value (Frequency 1) (tone_effects VariantB Up p0 initial))
          (start_value (Frequency 1) (tone_effects VariantB Down p0 initial)) \<and>
   lt_opt (window (Gain 4) (tone_effects VariantB Down p0 initial))
          (window (Gain 4) (tone_effects VariantB Up p0 initial)) \<and>
   window (Gain 2) (tone_effects VariantB Down p0 initial) =
     window (Gain 2) (tone_effects VariantB Up p0 initial)"
proof -
  have h: "fst (getAudioContext p0 initial) \<noteq> None"
    by (simp add: getAudioContext_def p0_def initial_def log_def)
  have n: "nodes initial = 0" by (simp add: initial_def)
  show ?thesis
    using h release_tone_against_press_tone [OF h, of VariantB]
    unfolding n Let_def by (simp add: numeral_2_eq_2)
qed

end
